theory Spec2Isabelle
  imports Complex_Main "HOL-Library.Sublist"
begin

section \<open>JavaScript values\<close>

text \<open>
  The generator is typed \<open>any \<Rightarrow> any\<close>: a schema is whatever the OpenAPI parser produced
  from JSON or YAML, so schemas and generated samples are both values of one type of JSON-like
  trees. An object is the list of its own enumerable properties in enumeration order, each
  key once.
  Numbers are exact rationals; IEEE rounding, NaN and the infinities are not modelled.
  Strings, arrays and the depth of recursion are unbounded: the limits of an engine (the
  longest string, memory, the stack) are not modelled either.
\<close>

datatype js =
    JUndefined
  | JNull
  | JBool bool
  | JNum rat
  | JStr string
  | JArr "js list"
  | JObj "(string \<times> js) list"

text \<open>
  \<open>TypeError\<close> is the exception JavaScript raises when a method is called on a value
  that does not have it. \<open>Unmodelled\<close> is not an exception of the program: it marks the inputs
  at which the program converts a string, an array or an object to a number, a conversion
  that is not part of this development.
\<close>

datatype error = TypeError | Unmodelled

fun truthy :: "js \<Rightarrow> bool" where
  "truthy JUndefined = False"
| "truthy JNull = False"
| "truthy (JBool b) = b"
| "truthy (JNum n) = (n \<noteq> 0)"
| "truthy (JStr s) = (s \<noteq> [])"
| "truthy (JArr xs) = True"
| "truthy (JObj kvs) = True"

text \<open>
  \<open>field v k\<close> is the property read \<open>v.k\<close> for the schema keywords the program reads
  (\<open>type\<close>, \<open>enum\<close>, \<open>items\<close>, ...): none of them is \<open>length\<close>, an index, or inherited from
  a prototype, so only an object can have one.
\<close>

fun field :: "js \<Rightarrow> string \<Rightarrow> js" where
  "field (JObj kvs) k = (case map_of kvs k of Some v \<Rightarrow> v | None \<Rightarrow> JUndefined)"
| "field v k = JUndefined"

text \<open>\<open>x.length\<close> and \<open>x[0]\<close>, for a truthy \<open>x\<close>.\<close>

fun js_length :: "js \<Rightarrow> js" where
  "js_length (JArr xs) = JNum (of_nat (length xs))"
| "js_length (JStr s) = JNum (of_nat (length s))"
| "js_length (JObj kvs) = field (JObj kvs) ''length''"
| "js_length v = JUndefined"

fun js_index0 :: "js \<Rightarrow> js" where
  "js_index0 (JArr xs) = (case xs of [] \<Rightarrow> JUndefined | x # _ \<Rightarrow> x)"
| "js_index0 (JStr s) = (case s of [] \<Rightarrow> JUndefined | c # _ \<Rightarrow> JStr [c])"
| "js_index0 (JObj kvs) = field (JObj kvs) ''0''"
| "js_index0 v = JUndefined"

text \<open>
  Conversion to a number, modelled for numbers, booleans and \<open>null\<close>. The program converts
  \<open>undefined\<close> (to NaN) in one place only, the test \<open>x.length > 0\<close> below.
\<close>

fun toNumber :: "js \<Rightarrow> error + rat" where
  "toNumber (JNum n) = Inr n"
| "toNumber (JBool b) = Inr (if b then 1 else 0)"
| "toNumber JNull = Inr 0"
| "toNumber v = Inl Unmodelled"

text \<open>\<open>v > 0\<close>; a comparison with NaN is false.\<close>

fun js_gt0 :: "js \<Rightarrow> error + bool" where
  "js_gt0 JUndefined = Inr False"
| "js_gt0 v = (case toNumber v of Inl e \<Rightarrow> Inl e | Inr n \<Rightarrow> Inr (n > 0))"

text \<open>\<open>a ?? b\<close> and \<open>a || b\<close>.\<close>

definition nullish :: "js \<Rightarrow> js \<Rightarrow> js" where
  "nullish a b = (if a = JUndefined \<or> a = JNull then b else a)"

definition js_or :: "js \<Rightarrow> js \<Rightarrow> js" where
  "js_or a b = (if truthy a then a else b)"

text \<open>\<open>Math.round\<close> rounds half-way cases up.\<close>

definition math_round :: "rat \<Rightarrow> rat" where
  "math_round x = of_int \<lfloor>x + 1 / 2\<rfloor>"

text \<open>\<open>typeof v === "object"\<close> holds of \<open>null\<close>, arrays and objects.\<close>

fun typeof_object :: "js \<Rightarrow> bool" where
  "typeof_object JNull = True"
| "typeof_object (JArr xs) = True"
| "typeof_object (JObj kvs) = True"
| "typeof_object v = False"

text \<open>\<open>s.split(c)\<close> for a one-character separator: never empty.\<close>

fun split_on :: "char \<Rightarrow> string \<Rightarrow> string list" where
  "split_on c [] = [[]]"
| "split_on c (x # xs) =
     (if x = c then [] # split_on c xs
      else (case split_on c xs of [] \<Rightarrow> [[x]] | p # ps \<Rightarrow> (x # p) # ps))"

text \<open>Decimal notation of an array index, as \<open>Object.entries\<close> names the elements of an array.\<close>

fun show_nat :: "nat \<Rightarrow> string" where
  "show_nat n =
     (if n < 10 then [char_of (48 + n)]
      else show_nat (n div 10) @ [char_of (48 + n mod 10)])"

declare show_nat.simps [simp del]

text \<open>\<open>Object.entries(v)\<close> for a truthy \<open>v\<close>.\<close>

fun entries :: "js \<Rightarrow> (string \<times> js) list" where
  "entries (JObj kvs) = kvs"
| "entries (JArr xs) = map (\<lambda>i. (show_nat i, xs ! i)) [0..<length xs]"
| "entries (JStr s) = map (\<lambda>i. (show_nat i, JStr [s ! i])) [0..<length s]"
| "entries v = []"

text \<open>
  \<open>obj[k] = v\<close> on an object created by \<open>{}\<close>: an existing property is overwritten in place,
  a new one is added last (an engine enumerates the keys that are array indices before the
  others; no property below depends on the order of the keys of a result). The name
  \<open>__proto__\<close> is the accessor inherited from \<open>Object.prototype\<close>: assigning to it replaces
  or keeps the prototype and creates no own property.
\<close>

fun assign :: "(string \<times> 'a) list \<Rightarrow> string \<Rightarrow> 'a \<Rightarrow> (string \<times> 'a) list" where
  "assign [] k v = [(k, v)]"
| "assign ((k', v') # kvs) k v =
     (if k' = k then (k, v) # kvs else (k', v') # assign kvs k v)"

definition setProp :: "(string \<times> 'a) list \<Rightarrow> string \<Rightarrow> 'a \<Rightarrow> (string \<times> 'a) list" where
  "setProp obj k v = (if k = ''__proto__'' then obj else assign obj k v)"

text \<open>
  \<open>r.includes(k)\<close> for a truthy \<open>r\<close>: membership in an array, substring search in a
  string; numbers, \<open>true\<close> and objects parsed from JSON have no such method.
\<close>

fun is_substring :: "string \<Rightarrow> string \<Rightarrow> bool" where
  "is_substring k [] = (k = [])"
| "is_substring k (c # cs) = (take (length k) (c # cs) = k \<or> is_substring k cs)"

fun js_includes :: "js \<Rightarrow> string \<Rightarrow> error + bool" where
  "js_includes (JArr xs) k = Inr (JStr k \<in> set xs)"
| "js_includes (JStr r) k = Inr (is_substring k r)"
| "js_includes v k = Inl TypeError"

section \<open>The world outside the module\<close>

text \<open>
  Three things the generator calls are not code of this repository: the library
  \<open>json-schema-faker\<close> (\<open>jsf.generate\<close>, which returns a sample or throws), \<open>Math.random\<close>
  and the clock behind \<open>new Date().toISOString()\<close>. They are parameters. Every dynamic call
  is identified by its place in the call tree (the indices of the loop iterations that lead
  to it), so two calls with the same argument may have different outcomes.
  \<open>jsf_generate\<close> returns \<open>None\<close> when the library throws.
\<close>

record ext =
  jsf_generate :: "nat list \<Rightarrow> js \<Rightarrow> js option"
  math_random :: "nat list \<Rightarrow> rat"
  date_toISOString :: "nat list \<Rightarrow> string"

section \<open>data-generator.ts\<close>

text \<open>
  \<open>generateSampleFromRef(ref)\<close>: \<open>ref.split("/")\<close> exists on strings only.
\<close>

fun generateSampleFromRef :: "js \<Rightarrow> error + js" where
  "generateSampleFromRef (JStr r) =
     Inr (JObj [(''id'', JNum 1), (''name'', JStr (last (split_on CHR ''/'' r)))])"
| "generateSampleFromRef v = Inl TypeError"

text \<open>\<open>"example".padEnd(l, "x").substring(0, l)\<close> for a number \<open>l\<close>.\<close>

definition pad_example :: "rat \<Rightarrow> string" where
  "pad_example l =
     (let n = nat \<lfloor>l\<rfloor> in take n (''example'' @ replicate (n - length ''example'') CHR ''x''))"

definition generateString :: "ext \<Rightarrow> nat list \<Rightarrow> js \<Rightarrow> error + js" where
  "generateString e p schema =
     (case (if truthy (field schema ''enum'') then js_gt0 (js_length (field schema ''enum''))
            else Inr False) of
        Inl err \<Rightarrow> Inl err
      | Inr True \<Rightarrow> Inr (js_index0 (field schema ''enum''))
      | Inr False \<Rightarrow>
          (let format = field schema ''format'' in
           if format = JStr ''date'' then
             Inr (JStr (case split_on CHR ''T'' (date_toISOString e p) of
                          [] \<Rightarrow> [] | d # _ \<Rightarrow> d))
           else if format = JStr ''date-time'' then Inr (JStr (date_toISOString e p))
           else if format = JStr ''email'' then Inr (JStr ''user@example.com'')
           else if format = JStr ''uri'' \<or> format = JStr ''url'' then
             Inr (JStr ''https://example.com'')
           else if format = JStr ''uuid'' then
             Inr (JStr ''123e4567-e89b-12d3-a456-426614174000'')
           else if format = JStr ''ipv4'' then Inr (JStr ''192.168.1.1'')
           else if format = JStr ''ipv6'' then
             Inr (JStr ''2001:0db8:85a3:0000:0000:8a2e:0370:7334'')
           else if truthy (field schema ''pattern'') then Inr (JStr ''string-matching-pattern'')
           else
             (case toNumber (js_or (field schema ''minLength'') (JNum 3)) of
                Inl err \<Rightarrow> Inl err
              | Inr minLength \<Rightarrow>
                  (case toNumber (js_or (field schema ''maxLength'') (JNum 10)) of
                     Inl err \<Rightarrow> Inl err
                   | Inr maxLength \<Rightarrow>
                       Inr (JStr (pad_example (min maxLength (max minLength 5))))))))"

definition generateNumber :: "js \<Rightarrow> error + js" where
  "generateNumber schema =
     (case (if truthy (field schema ''enum'') then js_gt0 (js_length (field schema ''enum''))
            else Inr False) of
        Inl err \<Rightarrow> Inl err
      | Inr True \<Rightarrow> Inr (js_index0 (field schema ''enum''))
      | Inr False \<Rightarrow>
          (let exMin = field schema ''exclusiveMinimum'';
               exMax = field schema ''exclusiveMaximum'';
               multipleOf = field schema ''multipleOf''
           in
           (case toNumber (nullish (field schema ''minimum'') (nullish exMin (JNum 0))) of
             Inl err \<Rightarrow> Inl err
           | Inr minimum \<Rightarrow>
           (case toNumber (nullish (field schema ''maximum'') (nullish exMax (JNum 100))) of
             Inl err \<Rightarrow> Inl err
           | Inr maximum \<Rightarrow>
           (case (if exMin = JUndefined then Inr minimum else toNumber exMin) of
             Inl err \<Rightarrow> Inl err
           | Inr lo \<Rightarrow>
           (case (if exMax = JUndefined then Inr maximum else toNumber exMax) of
             Inl err \<Rightarrow> Inl err
           | Inr hi \<Rightarrow>
           (case (if truthy multipleOf then toNumber multipleOf else Inr 1) of
             Inl err \<Rightarrow> Inl err
           | Inr m \<Rightarrow>
             (let v0 = minimum + (maximum - minimum) / 2;
                  v1 = (if exMin \<noteq> JUndefined \<and> v0 \<le> lo then lo + 1 else v0);
                  v2 = (if exMax \<noteq> JUndefined \<and> hi \<le> v1 then hi - 1 else v1);
                  v3 = (if truthy multipleOf then (math_round (v2 / m)) * m else v2);
                  v4 = (if field schema ''type'' = JStr ''integer'' then math_round v3 else v3)
              in Inr (JNum v4)))))))))"

text \<open>
  Running the iterations of a loop in order: the first one that raises ends the loop.
\<close>

fun sequence :: "(error + 'a) list \<Rightarrow> error + 'a list" where
  "sequence [] = Inr []"
| "sequence (x # xs) =
     (case x of
        Inl err \<Rightarrow> Inl err
      | Inr v \<Rightarrow> (case sequence xs of Inl err \<Rightarrow> Inl err | Inr vs \<Rightarrow> Inr (v # vs)))"

lemma size_field [termination_simp]:
  "field s k \<noteq> JUndefined \<Longrightarrow> size (field s k) < size s"
proof (cases s)
  case (JObj kvs)
  assume "field s k \<noteq> JUndefined"
  with JObj obtain v where v: "map_of kvs k = Some v" "field s k = v"
    by (auto split: option.splits)
  then have "(k, v) \<in> set kvs" by (simp add: map_of_SomeD)
  then have "size v < Suc (size_list (size_prod (\<lambda>_. 0) size) kvs)"
    by (induction kvs) auto
  with v JObj show ?thesis by simp
qed simp_all

lemma size_entries: "(k, v) \<in> set (entries s) \<Longrightarrow> size v \<le> size s"
proof (cases s)
  case (JObj kvs)
  assume "(k, v) \<in> set (entries s)"
  with JObj have "(k, v) \<in> set kvs" by simp
  then have "size v < Suc (size_list (size_prod (\<lambda>_. 0) size) kvs)"
    by (induction kvs) auto
  with JObj show ?thesis by simp
next
  case (JArr xs)
  assume "(k, v) \<in> set (entries s)"
  with JArr have "v \<in> set xs" by auto
  then have "size v < Suc (size_list size xs)"
    by (induction xs) auto
  with JArr show ?thesis by simp
next
  case (JStr str)
  assume "(k, v) \<in> set (entries s)"
  with JStr show ?thesis by auto
qed simp_all

lemma size_entries_field [termination_simp]:
  assumes "(k, v) \<in> set (entries (field s name))"
  shows "size v < size s"
proof -
  from assms have "field s name \<noteq> JUndefined" by auto
  then have "size (field s name) < size s" by (rule size_field)
  with size_entries [OF assms] show ?thesis by simp
qed

lemma truthy_defined: "truthy v \<Longrightarrow> v \<noteq> JUndefined"
  by (cases v) simp_all

lemma typeof_object_defined: "typeof_object v \<Longrightarrow> v \<noteq> JUndefined"
  by (cases v) simp_all

section \<open>The generator\<close>

text \<open>\<open>x && Array.isArray(x) && x.length > 0\<close>.\<close>

fun nonempty_array :: "js \<Rightarrow> bool" where
  "nonempty_array (JArr xs) = (xs \<noteq> [])"
| "nonempty_array v = False"


text \<open>
  \<open>generateSampleData\<close> and the fallback generators it reaches when \<open>jsf.generate\<close> throws.
  The recursion follows the schema tree, which is finite. The loop of \<open>generateObject\<close>
  yields, for each declared property in turn, the assignment it makes (or none); the
  assignments are then applied in order to the empty object.
\<close>

function generateSampleData :: "ext \<Rightarrow> nat list \<Rightarrow> js \<Rightarrow> error + js"
and generateSimpleSample :: "ext \<Rightarrow> nat list \<Rightarrow> js \<Rightarrow> error + js"
and generateArray :: "ext \<Rightarrow> nat list \<Rightarrow> js \<Rightarrow> error + js"
and generateObject :: "ext \<Rightarrow> nat list \<Rightarrow> js \<Rightarrow> error + js"
where
  "generateSampleData e p schema =
     (if \<not> truthy schema then Inr JNull
      else if truthy (field schema ''$ref'') then generateSampleFromRef (field schema ''$ref'')
      else if field schema ''example'' \<noteq> JUndefined then Inr (field schema ''example'')
      else if nonempty_array (field schema ''examples'') then
        Inr (js_index0 (field schema ''examples''))
      else (case jsf_generate e p schema of
              Some v \<Rightarrow> Inr v
            | None \<Rightarrow> generateSimpleSample e p schema))"
| "generateSimpleSample e p schema =
     (let t = field schema ''type'' in
      if \<not> truthy t then Inr JNull
      else if t = JStr ''string'' then generateString e p schema
      else if t = JStr ''number'' \<or> t = JStr ''integer'' then generateNumber schema
      else if t = JStr ''boolean'' then Inr (JBool True)
      else if t = JStr ''array'' then generateArray e p schema
      else if t = JStr ''object'' then generateObject e p schema
      else Inr JNull)"
| "generateArray e p schema =
     (if truthy (field schema ''items'') then
        (case toNumber (js_or (field schema ''minItems'') (JNum 1)) of
           Inl err \<Rightarrow> Inl err
         | Inr minItems \<Rightarrow>
             (case toNumber (js_or (field schema ''maxItems'') (JNum 3)) of
                Inl err \<Rightarrow> Inl err
              | Inr maxItems \<Rightarrow>
                  (case sequence
                          (map (\<lambda>i. generateSampleData e (p @ [i]) (field schema ''items''))
                             [0..<nat \<lceil>min maxItems (max minItems 2)\<rceil>]) of
                     Inl err \<Rightarrow> Inl err
                   | Inr items \<Rightarrow> Inr (JArr items))))
      else Inr (JArr []))"
| "generateObject e p schema =
     (case (if truthy (field schema ''properties'') then
              sequence
                (map (\<lambda>(i, propName, propSchema).
                        (case js_includes (js_or (field schema ''required'') (JArr [])) propName of
                           Inl err \<Rightarrow> Inl err
                         | Inr required \<Rightarrow>
                             if required \<or> math_random e (p @ [i]) > 3 / 10 then
                               (case generateSampleData e (p @ [i]) propSchema of
                                  Inl err \<Rightarrow> Inl err
                                | Inr v \<Rightarrow> Inr (Some (propName, v)))
                             else Inr None))
                   (enumerate 0 (entries (field schema ''properties''))))
            else Inr []) of
        Inl err \<Rightarrow> Inl err
      | Inr assignments \<Rightarrow>
          (let obj = fold (\<lambda>(k, v) obj. setProp obj k v) (List.map_filter id assignments) [];
               additionalProperties = field schema ''additionalProperties''
           in
           if additionalProperties = JBool True then
             Inr (JObj (setProp obj ''additionalProperty'' (JStr ''value'')))
           else if typeof_object additionalProperties then
             (case generateSampleData e
                     (p @ [length (entries (field schema ''properties''))])
                     additionalProperties of
                Inl err \<Rightarrow> Inl err
              | Inr v \<Rightarrow> Inr (JObj (setProp obj ''additionalProperty'' v)))
           else Inr (JObj obj)))"

  by pat_completeness auto

termination
proof (relation "measure (\<lambda>x. case x of
           Inl (Inl (e, p, s)) \<Rightarrow> 4 * size s + 3
         | Inl (Inr (e, p, s)) \<Rightarrow> 4 * size s + 2
         | Inr (Inl (e, p, s)) \<Rightarrow> 4 * size s + 1
         | Inr (Inr (e, p, s)) \<Rightarrow> 4 * size s + 1)", goal_cases)
  case (5 e p schema minItems maxItems i)
  then have "size (field schema ''items'') < size schema"
    by (intro size_field truthy_defined)
  then show ?case by simp
next
  case (6 e p schema x i y propName propSchema required)
  then have "(i, propName, propSchema) \<in> set (enumerate 0 (entries (field schema ''properties'')))"
    by simp
  then have "i < length (entries (field schema ''properties''))
      \<and> entries (field schema ''properties'') ! i = (propName, propSchema)"
    by (simp add: in_set_enumerate_eq)
  then have "(propName, propSchema) \<in> set (entries (field schema ''properties''))"
    by (metis nth_mem)
  then have "size propSchema < size schema"
    by (rule size_entries_field)
  then show ?case by simp
next
  case (7 e p schema assignments obj additionalProperties)
  then have "size (field schema ''additionalProperties'') < size schema"
    by (intro size_field typeof_object_defined) simp
  with 7 show ?case by simp
qed simp_all

declare generateSampleData.simps [simp del]
declare generateSimpleSample.simps [simp del]
declare generateArray.simps [simp del]
declare generateObject.simps [simp del]

section \<open>openapi-parser.ts\<close>

text \<open>
  \<open>getBaseUrl\<close> is typed on \<open>OpenAPIV3.Document\<close>, of which it reads the optional array
  \<open>servers\<close> and the \<open>url\<close> of a server object.
\<close>

record server =
  url :: string

record document =
  servers :: "server list option"

definition getBaseUrl :: "document \<Rightarrow> string" where
  "getBaseUrl spec =
     (case servers spec of
        Some (s # ss) \<Rightarrow> url s
      | _ \<Rightarrow> ''http://localhost'')"

section \<open>Fixtures\<close>

text \<open>
  A world in which every call of \<open>jsf.generate\<close> has the outcome \<open>r\<close> (\<open>None\<close>: it throws)
  and every call of \<open>Math.random\<close> returns \<open>d\<close>, for evaluating the generator on
  concrete schemas.
\<close>

definition fixed_world :: "js option \<Rightarrow> rat \<Rightarrow> ext" where
  "fixed_world r d =
     \<lparr>jsf_generate = (\<lambda>p s. r), math_random = (\<lambda>p. d),
      date_toISOString = (\<lambda>p. ''2025-11-26T10:30:00.000Z'')\<rparr>"

section \<open>Well-typed schemas\<close>








section \<open>The generator on a heap of objects\<close>

text \<open>
  JavaScript objects and arrays are mutable and are passed by reference: the generator
  receives its schema by reference, hands it to \<open>jsf.generate\<close>, creates objects and arrays
  and writes to them, and may return a part of the schema itself (\<open>schema.example\<close>). To
  say what it does to the objects it is given, this second embedding of the same functions
  keeps objects on a heap. A value is a primitive or the address of an object; a new object
  gets the next free address. Schema graphs may here be cyclic, so \<open>generateSampleData\<close>
  takes the number of nested calls it may make.
\<close>

type_synonym addr = nat

datatype hval = VUndefined | VNull | VBool bool | VNum rat | VStr string | VRef addr

datatype hobj = HObj "(string \<times> hval) list" | HArr "hval list"

type_synonym heap = "hobj list"

datatype outcome = Returned hval | Raised error | OutOfFuel

definition alloc :: "heap \<Rightarrow> hobj \<Rightarrow> addr \<times> heap" where
  "alloc h ob = (length h, h @ [ob])"

fun deref :: "heap \<Rightarrow> hval \<Rightarrow> hobj option" where
  "deref h (VRef a) = (if a < length h then Some (h ! a) else None)"
| "deref h v = None"

text \<open>\<open>items.push(v)\<close> and \<open>obj[k] = v\<close>, for the array and the object at address \<open>a\<close>.\<close>

definition push :: "heap \<Rightarrow> addr \<Rightarrow> hval \<Rightarrow> heap" where
  "push h a v = (case deref h (VRef a) of Some (HArr xs) \<Rightarrow> h[a := HArr (xs @ [v])] | _ \<Rightarrow> h)"

definition store :: "heap \<Rightarrow> addr \<Rightarrow> string \<Rightarrow> hval \<Rightarrow> heap" where
  "store h a k v =
     (case deref h (VRef a) of Some (HObj kvs) \<Rightarrow> h[a := HObj (setProp kvs k v)] | _ \<Rightarrow> h)"

text \<open>
  Truthiness, \<open>typeof\<close> and the conversion to a number look at a value without following
  its address: they are those of the first embedding, where an address stands for an object.
\<close>

fun js_of :: "hval \<Rightarrow> js" where
  "js_of VUndefined = JUndefined"
| "js_of VNull = JNull"
| "js_of (VBool b) = JBool b"
| "js_of (VNum n) = JNum n"
| "js_of (VStr s) = JStr s"
| "js_of (VRef a) = JObj []"

definition htruthy :: "hval \<Rightarrow> bool" where
  "htruthy v = truthy (js_of v)"

definition hnullish :: "hval \<Rightarrow> hval \<Rightarrow> hval" where
  "hnullish a b = (if a = VUndefined \<or> a = VNull then b else a)"

definition hor :: "hval \<Rightarrow> hval \<Rightarrow> hval" where
  "hor a b = (if htruthy a then a else b)"

definition hfield :: "heap \<Rightarrow> hval \<Rightarrow> string \<Rightarrow> hval" where
  "hfield h v k =
     (case deref h v of
        Some (HObj kvs) \<Rightarrow> (case map_of kvs k of Some x \<Rightarrow> x | None \<Rightarrow> VUndefined)
      | _ \<Rightarrow> VUndefined)"

definition hlength :: "heap \<Rightarrow> hval \<Rightarrow> hval" where
  "hlength h v =
     (case v of
        VStr s \<Rightarrow> VNum (of_nat (length s))
      | _ \<Rightarrow> (case deref h v of
                Some (HArr xs) \<Rightarrow> VNum (of_nat (length xs))
              | Some (HObj kvs) \<Rightarrow> hfield h v ''length''
              | None \<Rightarrow> VUndefined))"

definition hindex0 :: "heap \<Rightarrow> hval \<Rightarrow> hval" where
  "hindex0 h v =
     (case v of
        VStr s \<Rightarrow> (case s of [] \<Rightarrow> VUndefined | c # _ \<Rightarrow> VStr [c])
      | _ \<Rightarrow> (case deref h v of
                Some (HArr xs) \<Rightarrow> (case xs of [] \<Rightarrow> VUndefined | x # _ \<Rightarrow> x)
              | Some (HObj kvs) \<Rightarrow> hfield h v ''0''
              | None \<Rightarrow> VUndefined))"

definition hnonempty_array :: "heap \<Rightarrow> hval \<Rightarrow> bool" where
  "hnonempty_array h v = (case deref h v of Some (HArr xs) \<Rightarrow> xs \<noteq> [] | _ \<Rightarrow> False)"

definition hincludes :: "heap \<Rightarrow> hval \<Rightarrow> string \<Rightarrow> error + bool" where
  "hincludes h r k =
     (case r of
        VStr s \<Rightarrow> Inr (is_substring k s)
      | _ \<Rightarrow> (case deref h r of
                Some (HArr xs) \<Rightarrow> Inr (VStr k \<in> set xs)
              | _ \<Rightarrow> Inl TypeError))"

definition hentries :: "heap \<Rightarrow> hval \<Rightarrow> (string \<times> hval) list" where
  "hentries h v =
     (case v of
        VStr s \<Rightarrow> map (\<lambda>i. (show_nat i, VStr [s ! i])) [0..<length s]
      | _ \<Rightarrow> (case deref h v of
                Some (HObj kvs) \<Rightarrow> kvs
              | Some (HArr xs) \<Rightarrow> map (\<lambda>i. (show_nat i, xs ! i)) [0..<length xs]
              | None \<Rightarrow> []))"

text \<open>
  The library may allocate objects and is handed the schema by reference: it returns the
  heap it leaves, with its sample or with \<open>None\<close> when it throws.
\<close>

record hext =
  hjsf_generate :: "nat list \<Rightarrow> heap \<Rightarrow> hval \<Rightarrow> hval option \<times> heap"
  hmath_random :: "nat list \<Rightarrow> rat"
  hdate_toISOString :: "nat list \<Rightarrow> string"

definition generateSampleFromRef_h :: "heap \<Rightarrow> hval \<Rightarrow> outcome \<times> heap" where
  "generateSampleFromRef_h h ref =
     (case ref of
        VStr r \<Rightarrow>
          (let (a, h') = alloc h (HObj [(''id'', VNum 1),
                                        (''name'', VStr (last (split_on CHR ''/'' r)))])
           in (Returned (VRef a), h'))
      | _ \<Rightarrow> (Raised TypeError, h))"

definition generateString_h :: "hext \<Rightarrow> nat list \<Rightarrow> heap \<Rightarrow> hval \<Rightarrow> outcome" where
  "generateString_h e p h schema =
     (case (if htruthy (hfield h schema ''enum'')
            then js_gt0 (js_of (hlength h (hfield h schema ''enum''))) else Inr False) of
        Inl err \<Rightarrow> Raised err
      | Inr True \<Rightarrow> Returned (hindex0 h (hfield h schema ''enum''))
      | Inr False \<Rightarrow>
          (let format = hfield h schema ''format'' in
           if format = VStr ''date'' then
             Returned (VStr (case split_on CHR ''T'' (hdate_toISOString e p) of
                               [] \<Rightarrow> [] | d # _ \<Rightarrow> d))
           else if format = VStr ''date-time'' then Returned (VStr (hdate_toISOString e p))
           else if format = VStr ''email'' then Returned (VStr ''user@example.com'')
           else if format = VStr ''uri'' \<or> format = VStr ''url'' then
             Returned (VStr ''https://example.com'')
           else if format = VStr ''uuid'' then
             Returned (VStr ''123e4567-e89b-12d3-a456-426614174000'')
           else if format = VStr ''ipv4'' then Returned (VStr ''192.168.1.1'')
           else if format = VStr ''ipv6'' then
             Returned (VStr ''2001:0db8:85a3:0000:0000:8a2e:0370:7334'')
           else if htruthy (hfield h schema ''pattern'') then
             Returned (VStr ''string-matching-pattern'')
           else
             (case toNumber (js_of (hor (hfield h schema ''minLength'') (VNum 3))) of
                Inl err \<Rightarrow> Raised err
              | Inr minLength \<Rightarrow>
                  (case toNumber (js_of (hor (hfield h schema ''maxLength'') (VNum 10))) of
                     Inl err \<Rightarrow> Raised err
                   | Inr maxLength \<Rightarrow>
                       Returned (VStr (pad_example (min maxLength (max minLength 5))))))))"

definition generateNumber_h :: "heap \<Rightarrow> hval \<Rightarrow> outcome" where
  "generateNumber_h h schema =
     (case (if htruthy (hfield h schema ''enum'')
            then js_gt0 (js_of (hlength h (hfield h schema ''enum''))) else Inr False) of
        Inl err \<Rightarrow> Raised err
      | Inr True \<Rightarrow> Returned (hindex0 h (hfield h schema ''enum''))
      | Inr False \<Rightarrow>
          (let exMin = hfield h schema ''exclusiveMinimum'';
               exMax = hfield h schema ''exclusiveMaximum'';
               multipleOf = hfield h schema ''multipleOf''
           in
           (case toNumber (js_of (hnullish (hfield h schema ''minimum'')
                                     (hnullish exMin (VNum 0)))) of
             Inl err \<Rightarrow> Raised err
           | Inr minimum \<Rightarrow>
           (case toNumber (js_of (hnullish (hfield h schema ''maximum'')
                                     (hnullish exMax (VNum 100)))) of
             Inl err \<Rightarrow> Raised err
           | Inr maximum \<Rightarrow>
           (case (if exMin = VUndefined then Inr minimum else toNumber (js_of exMin)) of
             Inl err \<Rightarrow> Raised err
           | Inr lo \<Rightarrow>
           (case (if exMax = VUndefined then Inr maximum else toNumber (js_of exMax)) of
             Inl err \<Rightarrow> Raised err
           | Inr hi \<Rightarrow>
           (case (if htruthy multipleOf then toNumber (js_of multipleOf) else Inr 1) of
             Inl err \<Rightarrow> Raised err
           | Inr m \<Rightarrow>
             (let v0 = minimum + (maximum - minimum) / 2;
                  v1 = (if exMin \<noteq> VUndefined \<and> v0 \<le> lo then lo + 1 else v0);
                  v2 = (if exMax \<noteq> VUndefined \<and> hi \<le> v1 then hi - 1 else v1);
                  v3 = (if htruthy multipleOf then (math_round (v2 / m)) * m else v2);
                  v4 = (if hfield h schema ''type'' = VStr ''integer'' then math_round v3 else v3)
              in Returned (VNum v4)))))))))"

text \<open>
  The two loops. Each iteration reads the heap as the iterations before it left it; the
  loop ends with \<open>None\<close>, or with the outcome of the call that did not return a value.
\<close>

fun push_items ::
  "(nat list \<Rightarrow> heap \<Rightarrow> hval \<Rightarrow> outcome \<times> heap) \<Rightarrow> nat list \<Rightarrow> hval \<Rightarrow> addr \<Rightarrow> nat list \<Rightarrow>
     heap \<Rightarrow> outcome option \<times> heap" where
  "push_items gen p schema a [] h = (None, h)"
| "push_items gen p schema a (i # is) h =
     (case gen (p @ [i]) h (hfield h schema ''items'') of
        (out, h') \<Rightarrow>
          (case out of
             Returned v \<Rightarrow> push_items gen p schema a is (push h' a v)
           | _ \<Rightarrow> (Some out, h')))"

fun set_props ::
  "(nat list \<Rightarrow> heap \<Rightarrow> hval \<Rightarrow> outcome \<times> heap) \<Rightarrow> hext \<Rightarrow> nat list \<Rightarrow> hval \<Rightarrow> addr \<Rightarrow>
     (nat \<times> string \<times> hval) list \<Rightarrow> heap \<Rightarrow> outcome option \<times> heap" where
  "set_props gen e p required a [] h = (None, h)"
| "set_props gen e p required a ((i, propName, propSchema) # rest) h =
     (case hincludes h required propName of
        Inl err \<Rightarrow> (Some (Raised err), h)
      | Inr req \<Rightarrow>
          if req \<or> hmath_random e (p @ [i]) > 3 / 10 then
            (case gen (p @ [i]) h propSchema of
               (out, h') \<Rightarrow>
                 (case out of
                    Returned v \<Rightarrow> set_props gen e p required a rest (store h' a propName v)
                  | _ \<Rightarrow> (Some out, h')))
          else set_props gen e p required a rest h)"

definition generateArray_h ::
  "(nat list \<Rightarrow> heap \<Rightarrow> hval \<Rightarrow> outcome \<times> heap) \<Rightarrow> nat list \<Rightarrow> heap \<Rightarrow> hval \<Rightarrow> outcome \<times> heap"
  where
  "generateArray_h gen p h schema =
     (let itemCount =
            (case toNumber (js_of (hor (hfield h schema ''minItems'') (VNum 1))) of
               Inl err \<Rightarrow> Inl err
             | Inr minItems \<Rightarrow>
                 (case toNumber (js_of (hor (hfield h schema ''maxItems'') (VNum 3))) of
                    Inl err \<Rightarrow> Inl err
                  | Inr maxItems \<Rightarrow> Inr (min maxItems (max minItems 2))));
          (a, h1) = alloc h (HArr [])
      in
      if htruthy (hfield h1 schema ''items'') then
        (case itemCount of
           Inl err \<Rightarrow> (Raised err, h1)
         | Inr n \<Rightarrow>
             (case push_items gen p schema a [0..<nat \<lceil>n\<rceil>] h1 of
                (None, h2) \<Rightarrow> (Returned (VRef a), h2)
              | (Some out, h2) \<Rightarrow> (out, h2)))
      else (Returned (VRef a), h1))"

definition generateObject_h ::
  "(nat list \<Rightarrow> heap \<Rightarrow> hval \<Rightarrow> outcome \<times> heap) \<Rightarrow> hext \<Rightarrow> nat list \<Rightarrow> heap \<Rightarrow> hval \<Rightarrow>
     outcome \<times> heap" where
  "generateObject_h gen e p h schema =
     (let (a, h1) = alloc h (HObj []) in
      (case (if htruthy (hfield h1 schema ''properties'') then
               (let (required, h2) =
                      (if htruthy (hfield h1 schema ''required'')
                       then (hfield h1 schema ''required'', h1)
                       else (let (r, h') = alloc h1 (HArr []) in (VRef r, h')))
                in set_props gen e p required a
                     (enumerate 0 (hentries h2 (hfield h2 schema ''properties''))) h2)
             else (None, h1)) of
         (Some out, h3) \<Rightarrow> (out, h3)
       | (None, h3) \<Rightarrow>
           (let additionalProperties = hfield h3 schema ''additionalProperties'' in
            if additionalProperties = VBool True then
              (Returned (VRef a), store h3 a ''additionalProperty'' (VStr ''value''))
            else if typeof_object (js_of additionalProperties) then
              (case gen (p @ [length (hentries h1 (hfield h1 schema ''properties''))]) h3
                      additionalProperties of
                 (out, h4) \<Rightarrow>
                   (case out of
                      Returned v \<Rightarrow> (Returned (VRef a), store h4 a ''additionalProperty'' v)
                    | _ \<Rightarrow> (out, h4)))
            else (Returned (VRef a), h3))))"

definition generateSimpleSample_h ::
  "(nat list \<Rightarrow> heap \<Rightarrow> hval \<Rightarrow> outcome \<times> heap) \<Rightarrow> hext \<Rightarrow> nat list \<Rightarrow> heap \<Rightarrow> hval \<Rightarrow>
     outcome \<times> heap" where
  "generateSimpleSample_h gen e p h schema =
     (let t = hfield h schema ''type'' in
      if \<not> htruthy t then (Returned VNull, h)
      else if t = VStr ''string'' then (generateString_h e p h schema, h)
      else if t = VStr ''number'' \<or> t = VStr ''integer'' then (generateNumber_h h schema, h)
      else if t = VStr ''boolean'' then (Returned (VBool True), h)
      else if t = VStr ''array'' then generateArray_h gen p h schema
      else if t = VStr ''object'' then generateObject_h gen e p h schema
      else (Returned VNull, h))"

primrec generateSampleData_h ::
  "nat \<Rightarrow> hext \<Rightarrow> nat list \<Rightarrow> heap \<Rightarrow> hval \<Rightarrow> outcome \<times> heap" where
  "generateSampleData_h 0 e p h schema = (OutOfFuel, h)"
| "generateSampleData_h (Suc n) e p h schema =
     (if \<not> htruthy schema then (Returned VNull, h)
      else if htruthy (hfield h schema ''$ref'') then
        generateSampleFromRef_h h (hfield h schema ''$ref'')
      else if hfield h schema ''example'' \<noteq> VUndefined then
        (Returned (hfield h schema ''example''), h)
      else if hnonempty_array h (hfield h schema ''examples'') then
        (Returned (hindex0 h (hfield h schema ''examples'')), h)
      else
        (case hjsf_generate e p h schema of
           (Some v, h') \<Rightarrow> (Returned v, h')
         | (None, h') \<Rightarrow> generateSimpleSample_h (generateSampleData_h n e) e p h' schema))"

text \<open>
  \<open>unchanged h h'\<close>: every object of the heap \<open>h\<close> is in \<open>h'\<close>, at the same address and
  with the same contents.
\<close>

definition unchanged :: "heap \<Rightarrow> heap \<Rightarrow> bool" where
  "unchanged h h' \<longleftrightarrow> take (length h) h' = h"

text \<open>
  Reading a value of the heap as a tree, down to a given depth, to compare the two
  embeddings on a schema.
\<close>

primrec reify :: "nat \<Rightarrow> heap \<Rightarrow> hval \<Rightarrow> js" where
  "reify 0 h v = js_of v"
| "reify (Suc n) h v =
     (case deref h v of
        Some (HObj kvs) \<Rightarrow> JObj (map (map_prod id (reify n h)) kvs)
      | Some (HArr xs) \<Rightarrow> JArr (map (reify n h) xs)
      | None \<Rightarrow> js_of v)"

text \<open>
  A library that always throws and touches nothing, with every random draw equal to \<open>d\<close>;
  and the schema of the README on a heap, with an \<open>additionalProperties\<close> schema whose
  \<open>example\<close> is the \<open>required\<close> array of the schema itself.
\<close>

definition fixed_hworld :: "rat \<Rightarrow> hext" where
  "fixed_hworld d =
     \<lparr>hjsf_generate = (\<lambda>p h v. (None, h)), hmath_random = (\<lambda>p. d),
      hdate_toISOString = (\<lambda>p. ''2025-11-26T10:30:00.000Z'')\<rparr>"

definition readme_heap :: heap where
  "readme_heap =
     [HObj [(''type'', VStr ''object''), (''required'', VRef 1), (''properties'', VRef 2),
            (''additionalProperties'', VRef 6)],
      HArr [VStr ''username'', VStr ''email''],
      HObj [(''username'', VRef 3), (''email'', VRef 4), (''tags'', VRef 5)],
      HObj [(''type'', VStr ''string''), (''minLength'', VNum 3), (''maxLength'', VNum 20)],
      HObj [(''type'', VStr ''string''), (''format'', VStr ''email'')],
      HObj [(''type'', VStr ''array''), (''items'', VRef 3)],
      HObj [(''example'', VRef 1)]]"

section \<open>Auxiliary facts\<close>

lemma split_on_nonempty: "split_on c s \<noteq> []"
  by (induction s) (auto split: list.splits)

lemma split_on_no_separator: "c \<notin> set s \<Longrightarrow> split_on c s = [s]"
  by (induction s) auto

lemma split_on_single: "split_on c s = [q] \<Longrightarrow> c \<notin> set s"
proof (induction s arbitrary: q)
  case Nil
  then show ?case by simp
next
  case (Cons x xs)
  then show ?case
    using split_on_nonempty [of c xs] by (auto split: if_splits list.splits)
qed

lemma last_split_on:
  "last (split_on c s) = rev (takeWhile (\<lambda>x. x \<noteq> c) (rev s))"
proof (induction s)
  case Nil
  then show ?case by simp
next
  case (Cons x xs)
  obtain q qs where q: "split_on c xs = q # qs"
    using split_on_nonempty [of c xs] by (cases "split_on c xs") auto
  show ?case
  proof (cases "x = c")
    case True
    with Cons q show ?thesis by (simp add: takeWhile_append)
  next
    case False
    show ?thesis
    proof (cases qs)
      case Nil
      with q have "c \<notin> set xs" by (simp add: split_on_single)
      with False show ?thesis by (simp add: split_on_no_separator takeWhile_append)
    next
      case (Cons r rs)
      with q have "c \<in> set xs" using split_on_no_separator [of c xs] by auto
      with False q Cons Cons.IH show ?thesis by (auto simp add: takeWhile_append)
    qed
  qed
qed

lemma length_pad_example: "length (pad_example (of_nat n)) = n"
  by (simp add: pad_example_def Let_def)

lemma sequence_map_Inr: "sequence (map Inr ys) = Inr ys"
  by (induction ys) simp_all

lemma sequence_Inr_D: "sequence xs = Inr ys \<Longrightarrow> xs = map Inr ys"
proof (induction xs arbitrary: ys)
  case Nil
  then show ?case by simp
next
  case (Cons x xs)
  then show ?case by (auto split: sum.splits)
qed

lemma sequence_Inr: "sequence xs = Inr ys \<longleftrightarrow> xs = map Inr ys"
  using sequence_map_Inr sequence_Inr_D by blast

lemma generateString_length:
  assumes "field schema ''enum'' = JUndefined \<or> field schema ''enum'' = JArr []"
    and "field schema ''format'' = JUndefined"
    and "field schema ''pattern'' = JUndefined"
    and "field schema ''minLength'' = JNum (of_nat a)"
    and "field schema ''maxLength'' = JNum (of_nat b)"
    and "a \<le> b" and "0 < b"
  shows "\<exists>s. generateString e p schema = Inr (JStr s) \<and> length s = min b (max a 5)"
proof -
  have enum: "(if truthy (field schema ''enum'') then js_gt0 (js_length (field schema ''enum''))
        else Inr False) = Inr False"
    using assms(1) by auto
  have "toNumber (js_or (field schema ''minLength'') (JNum 3)) = Inr (of_nat (if a = 0 then 3 else a))"
    using assms(4) by (simp add: js_or_def)
  moreover have "toNumber (js_or (field schema ''maxLength'') (JNum 10)) = Inr (of_nat b)"
    using assms(5,7) by (simp add: js_or_def)
  ultimately have "generateString e p schema
      = Inr (JStr (pad_example (min (of_nat b) (max (of_nat (if a = 0 then 3 else a)) 5))))"
    using assms(2,3) enum by (simp add: generateString_def)
  moreover have "min (of_nat b) (max (of_nat (if a = 0 then 3 else a)) (5::rat))
      = of_nat (min b (max (if a = 0 then 3 else a) 5))"
    by (simp add: of_nat_min of_nat_max)
  moreover have "min b (max (if a = 0 then 3 else a) 5) = min b (max a 5)"
    by auto
  ultimately show ?thesis
    by (simp add: length_pad_example)
qed





lemma generateArray_no_items:
  "\<not> truthy (field schema ''items'') \<Longrightarrow> generateArray e p schema = Inr (JArr [])"
  by (simp add: generateArray.simps)

lemma generateArray_count:
  assumes "truthy (field schema ''items'')"
    and "field schema ''minItems'' = (case a of None \<Rightarrow> JUndefined | Some n \<Rightarrow> JNum (of_nat n))"
    and "field schema ''maxItems'' = (case b of None \<Rightarrow> JUndefined | Some n \<Rightarrow> JNum (of_nat n))"
    and "b \<noteq> Some 0"
    and "generateArray e p schema = Inr r"
  shows "\<exists>ys. r = JArr ys
           \<and> length ys = min (case b of None \<Rightarrow> 3 | Some n \<Rightarrow> n)
                             (max (case a of None \<Rightarrow> 1 | Some n \<Rightarrow> n) 2)
           \<and> (\<forall>i < length ys.
                 generateSampleData e (p @ [i]) (field schema ''items'') = Inr (ys ! i))"
proof -
  define a' where "a' = (case a of None \<Rightarrow> 1 | Some 0 \<Rightarrow> 1 | Some n \<Rightarrow> n)"
  define b' where "b' = (case b of None \<Rightarrow> 3 | Some n \<Rightarrow> n)"
  define n where "n = min b' (max a' 2)"
  have mn: "toNumber (js_or (field schema ''minItems'') (JNum 1)) = Inr (of_nat a')"
    using assms(2) by (auto simp: js_or_def a'_def split: option.splits nat.splits)
  have mx: "toNumber (js_or (field schema ''maxItems'') (JNum 3)) = Inr (of_nat b')"
    using assms(3,4) by (auto simp: js_or_def b'_def split: option.splits)
  have "min (of_nat b') (max (of_nat a') (2 :: rat)) = of_nat n"
    by (simp add: n_def of_nat_min of_nat_max)
  then have cnt: "nat \<lceil>min (of_nat b') (max (of_nat a') (2 :: rat))\<rceil> = n"
    by simp
  from assms(1,5) mn mx cnt obtain ys where ys: "r = JArr ys"
    "sequence (map (\<lambda>i. generateSampleData e (p @ [i]) (field schema ''items'')) [0..<n])
       = Inr ys"
    by (auto simp: generateArray.simps split: sum.splits)
  from ys(2) have eq: "map (\<lambda>i. generateSampleData e (p @ [i]) (field schema ''items'')) [0..<n]
      = map Inr ys"
    by (simp add: sequence_Inr)
  then have len: "length ys = n"
    by (metis length_map length_upt minus_nat.diff_0)
  have "generateSampleData e (p @ [i]) (field schema ''items'') = Inr (ys ! i)" if "i < n" for i
    using that len arg_cong [OF eq, of "\<lambda>xs. xs ! i"] by simp
  moreover have "n = min (case b of None \<Rightarrow> 3 | Some n \<Rightarrow> n)
                         (max (case a of None \<Rightarrow> 1 | Some n \<Rightarrow> n) 2)"
    by (auto simp: n_def a'_def b'_def split: option.splits nat.splits)
  ultimately show ?thesis using ys(1) len by auto
qed

lemma map_fst_assign:
  "map fst (assign obj k v) = (if k \<in> set (map fst obj) then map fst obj else map fst obj @ [k])"
proof (induction obj)
  case Nil
  then show ?case by simp
next
  case (Cons kv obj)
  obtain k' v' where kv: "kv = (k', v')" by (cases kv)
  show ?case
  proof (cases "k' = k")
    case True
    then show ?thesis by (simp add: kv)
  next
    case False
    with Cons show ?thesis by (simp add: kv)
  qed
qed

lemma keys_assign: "set (map fst (assign obj k v)) = insert k (set (map fst obj))"
  unfolding map_fst_assign by auto

lemma keys_setProp:
  "set (map fst (setProp obj k v))
     = (if k = ''__proto__'' then set (map fst obj) else insert k (set (map fst obj)))"
  by (simp add: setProp_def keys_assign del: set_map)

lemma keys_fold_setProp:
  "set (map fst (fold (\<lambda>(k, v) obj. setProp obj k v) kvs acc))
     = set (map fst acc) \<union> {k \<in> set (map fst kvs). k \<noteq> ''__proto__''}"
proof (induction kvs arbitrary: acc)
  case Nil
  then show ?case by simp
next
  case (Cons kv kvs)
  obtain k v where kv: "kv = (k, v)" by (cases kv)
  have "set (map fst (fold (\<lambda>(k, v) obj. setProp obj k v) (kv # kvs) acc))
      = set (map fst (setProp acc k v)) \<union> {k \<in> set (map fst kvs). k \<noteq> ''__proto__''}"
    unfolding kv using Cons.IH [of "setProp acc k v"] by simp
  also have "\<dots> = set (map fst acc) \<union> {k \<in> set (map fst (kv # kvs)). k \<noteq> ''__proto__''}"
    unfolding keys_setProp kv by auto
  finally show ?case .
qed

lemma generateObject_required_present:
  assumes props: "field schema ''properties'' = JObj props"
    and req: "field schema ''required'' = JArr req"
    and declared: "(k, s) \<in> set props"
    and required: "JStr k \<in> set req"
    and name: "k \<noteq> ''__proto__''"
    and ret: "generateObject e p schema = Inr r"
  shows "\<exists>obj. r = JObj obj \<and> k \<in> set (map fst obj)"
proof -
  define step where "step = (\<lambda>(i, propName, propSchema).
      (case js_includes (js_or (field schema ''required'') (JArr [])) propName of
         Inl err \<Rightarrow> Inl err
       | Inr required \<Rightarrow>
           if required \<or> math_random e (p @ [i]) > 3 / 10 then
             (case generateSampleData e (p @ [i]) propSchema of
                Inl err \<Rightarrow> Inl err
              | Inr v \<Rightarrow> Inr (Some (propName, v)))
           else Inr None))"
  from ret props obtain assignments where
    seq: "sequence (map step (enumerate 0 props)) = Inr assignments"
    by (auto simp: generateObject.simps step_def split: sum.splits)
  define obj where
    "obj = fold (\<lambda>(k, v) obj. setProp obj k v) (List.map_filter id assignments) []"
  from ret props seq obtain v' where r: "r = JObj obj \<or> r = JObj (setProp obj ''additionalProperty'' v')"
    by (auto simp: generateObject.simps step_def [symmetric] obj_def Let_def
          split: sum.splits if_splits)
  from seq have eq: "map step (enumerate 0 props) = map Inr assignments"
    by (simp add: sequence_Inr)
  from declared obtain i where i: "i < length props" "props ! i = (k, s)"
    by (auto simp: in_set_conv_nth)
  from eq have len: "length assignments = length props"
    by (metis length_enumerate length_map)
  from arg_cong [OF eq, of "\<lambda>xs. xs ! i"] i len
  have "Inr (assignments ! i) = step (i, k, s)"
    by (simp add: nth_enumerate_eq)
  also have "\<dots> = (case generateSampleData e (p @ [i]) s of
                      Inl err \<Rightarrow> Inl err | Inr v \<Rightarrow> Inr (Some (k, v)))"
    using req required by (simp add: step_def js_or_def)
  finally have "\<exists>v. assignments ! i = Some (k, v)"
    by (cases "generateSampleData e (p @ [i]) s") simp_all
  then obtain v where "assignments ! i = Some (k, v)" ..
  with i len have "Some (k, v) \<in> set assignments"
    by (metis nth_mem)
  then have "(k, v) \<in> set (List.map_filter id assignments)"
    by (auto simp: List.map_filter_def intro!: image_eqI [of _ _ "Some (k, v)"])
  then have "k \<in> set (map fst (List.map_filter id assignments))"
    by force
  with name have "k \<in> set (map fst obj)"
    unfolding obj_def keys_fold_setProp by simp
  with r show ?thesis by (auto simp: keys_setProp simp del: set_map)
qed



























section \<open>Auxiliary facts about the heap\<close>

lemma unchanged_prefix: "unchanged h h' \<longleftrightarrow> prefix h h'"
  unfolding unchanged_def by (metis append_eq_conv_conj prefix_def take_is_prefix)

lemma unchanged_nth: "unchanged h h' \<Longrightarrow> a < length h \<Longrightarrow> a < length h' \<and> h' ! a = h ! a"
  unfolding unchanged_prefix by (auto simp: prefix_def nth_append)

lemma unchanged_refl: "unchanged h h"
  by (simp add: unchanged_def)

lemma unchanged_trans: "unchanged h1 h2 \<Longrightarrow> unchanged h2 h3 \<Longrightarrow> unchanged h1 h3"
  unfolding unchanged_prefix by (rule prefix_order.trans)

lemma unchanged_length: "unchanged h h' \<Longrightarrow> length h \<le> length h'"
  unfolding unchanged_prefix by (rule prefix_length_le)

lemma unchanged_alloc: "alloc h ob = (a, h') \<Longrightarrow> unchanged h h' \<and> a = length h"
  by (auto simp: alloc_def unchanged_def)

lemma unchanged_update: "unchanged h h' \<Longrightarrow> length h \<le> a \<Longrightarrow> unchanged h (h'[a := ob])"
  by (simp add: unchanged_def)

lemma unchanged_push: "unchanged h h' \<Longrightarrow> length h \<le> a \<Longrightarrow> unchanged h (push h' a v)"
  by (auto simp: push_def unchanged_update split: option.splits hobj.splits)

lemma unchanged_store: "unchanged h h' \<Longrightarrow> length h \<le> a \<Longrightarrow> unchanged h (store h' a k v)"
  by (auto simp: store_def unchanged_update split: option.splits hobj.splits)

lemma push_items_unchanged:
  assumes gen: "\<And>p h v. unchanged h (snd (gen p h v))"
    and "unchanged h0 h" and "length h0 \<le> a"
  shows "unchanged h0 (snd (push_items gen p schema a is h))"
  using assms(2)
proof (induction "is" arbitrary: h)
  case Nil
  then show ?case by simp
next
  case (Cons i "is")
  obtain out h' where g: "gen (p @ [i]) h (hfield h schema ''items'') = (out, h')"
    by (cases "gen (p @ [i]) h (hfield h schema ''items'')")
  with gen [of h "p @ [i]" "hfield h schema ''items''"] Cons.prems
  have h': "unchanged h0 h'" by (auto intro: unchanged_trans)
  show ?case
  proof (cases out)
    case (Returned v)
    with g Cons.IH [OF unchanged_push [OF h' assms(3)]] show ?thesis by simp
  qed (use g h' in simp_all)
qed

lemma set_props_unchanged:
  assumes gen: "\<And>p h v. unchanged h (snd (gen p h v))"
    and "unchanged h0 h" and "length h0 \<le> a"
  shows "unchanged h0 (snd (set_props gen e p required a props h))"
  using assms(2)
proof (induction props arbitrary: h)
  case Nil
  then show ?case by simp
next
  case (Cons x props)
  obtain i propName propSchema where x: "x = (i, propName, propSchema)" by (cases x)
  obtain out h' where g: "gen (p @ [i]) h propSchema = (out, h')"
    by (cases "gen (p @ [i]) h propSchema")
  with gen [of h "p @ [i]" propSchema] Cons.prems
  have h': "unchanged h0 h'" by (auto intro: unchanged_trans)
  show ?case
  proof (cases "hincludes h required propName")
    case (Inl err)
    with Cons.prems show ?thesis by (simp add: x)
  next
    case (Inr req)
    show ?thesis
    proof (cases "req \<or> hmath_random e (p @ [i]) > 3 / 10")
      case False
      with Inr Cons.IH [OF Cons.prems] show ?thesis by (simp add: x)
    next
      case True
      show ?thesis
      proof (cases out)
        case (Returned v)
        with g True Inr Cons.IH [OF unchanged_store [OF h' assms(3)]] show ?thesis
          by (simp add: x)
      qed (use g h' True Inr in \<open>simp_all add: x\<close>)
    qed
  qed
qed

lemma generateSampleFromRef_h_unchanged:
  "unchanged h (snd (generateSampleFromRef_h h ref))"
  by (cases ref) (simp_all add: generateSampleFromRef_h_def alloc_def unchanged_def)

lemma generateArray_h_unchanged:
  assumes gen: "\<And>p h v. unchanged h (snd (gen p h v))"
  shows "unchanged h (snd (generateArray_h gen p h schema))"
proof -
  obtain a h1 where al: "alloc h (HArr []) = (a, h1)" by (cases "alloc h (HArr [])")
  then have h1: "unchanged h h1" and a: "length h \<le> a"
    using unchanged_alloc [OF al] by simp_all
  have loop: "unchanged h (snd (push_items gen p schema a is h1))" for "is"
    by (rule push_items_unchanged [OF gen h1 a])
  show ?thesis
  proof (cases "htruthy (hfield h1 schema ''items'')")
    case False
    with h1 show ?thesis by (simp add: generateArray_h_def Let_def al)
  next
    case True
    show ?thesis
    proof (cases "toNumber (js_of (hor (hfield h schema ''minItems'') (VNum 1)))")
      case (Inl err)
      with True h1 show ?thesis by (simp add: generateArray_h_def Let_def al)
    next
      case mn: (Inr minItems)
      show ?thesis
      proof (cases "toNumber (js_of (hor (hfield h schema ''maxItems'') (VNum 3)))")
        case (Inl err)
        with True mn h1 show ?thesis by (simp add: generateArray_h_def Let_def al)
      next
        case mx: (Inr maxItems)
        obtain res h2 where l: "push_items gen p schema a
            [0..<nat \<lceil>min maxItems (max minItems 2)\<rceil>] h1 = (res, h2)"
          by (cases "push_items gen p schema a [0..<nat \<lceil>min maxItems (max minItems 2)\<rceil>] h1")
        with loop [of "[0..<nat \<lceil>min maxItems (max minItems 2)\<rceil>]"]
        have "unchanged h h2" by simp
        with True mn mx l show ?thesis
          by (cases res) (simp_all add: generateArray_h_def Let_def al)
      qed
    qed
  qed
qed

lemma generateObject_h_unchanged:
  assumes gen: "\<And>p h v. unchanged h (snd (gen p h v))"
  shows "unchanged h (snd (generateObject_h gen e p h schema))"
proof -
  obtain a h1 where al: "alloc h (HObj []) = (a, h1)" by (cases "alloc h (HObj [])")
  then have h1: "unchanged h h1" and a: "length h \<le> a"
    using unchanged_alloc [OF al] by simp_all
  define loop where "loop =
    (if htruthy (hfield h1 schema ''properties'') then
       (let (required, h2) =
              (if htruthy (hfield h1 schema ''required'')
               then (hfield h1 schema ''required'', h1)
               else (let (r, h') = alloc h1 (HArr []) in (VRef r, h')))
        in set_props gen e p required a
             (enumerate 0 (hentries h2 (hfield h2 schema ''properties''))) h2)
     else (None, h1))"
  obtain res h3 where l: "loop = (res, h3)" by (cases loop)
  have "unchanged h (snd loop)"
  proof (cases "htruthy (hfield h1 schema ''properties'')")
    case False
    with h1 show ?thesis by (simp add: loop_def)
  next
    case True
    obtain required h2 where r: "(if htruthy (hfield h1 schema ''required'')
               then (hfield h1 schema ''required'', h1)
               else (let (r, h') = alloc h1 (HArr []) in (VRef r, h'))) = (required, h2)"
      by (cases "(if htruthy (hfield h1 schema ''required'')
               then (hfield h1 schema ''required'', h1)
               else (let (r, h') = alloc h1 (HArr []) in (VRef r, h')))")
    then have "unchanged h1 h2"
      by (auto simp: alloc_def unchanged_def split: if_splits)
    with h1 have "unchanged h h2" by (rule unchanged_trans)
    from set_props_unchanged [OF gen this a] True r show ?thesis
      by (simp add: loop_def)
  qed
  with l have h3: "unchanged h h3" by simp
  have gen3: "unchanged h (snd (gen q h3 v))" for q v
    using h3 gen [of h3 q v] by (rule unchanged_trans)
  have "generateObject_h gen e p h schema =
      (case loop of
         (Some out, h3) \<Rightarrow> (out, h3)
       | (None, h3) \<Rightarrow>
           (let additionalProperties = hfield h3 schema ''additionalProperties'' in
            if additionalProperties = VBool True then
              (Returned (VRef a), store h3 a ''additionalProperty'' (VStr ''value''))
            else if typeof_object (js_of additionalProperties) then
              (case gen (p @ [length (hentries h1 (hfield h1 schema ''properties''))]) h3
                      additionalProperties of
                 (out, h4) \<Rightarrow>
                   (case out of
                      Returned v \<Rightarrow> (Returned (VRef a), store h4 a ''additionalProperty'' v)
                    | _ \<Rightarrow> (out, h4)))
            else (Returned (VRef a), h3)))"
    unfolding generateObject_h_def loop_def al by simp
  also have "unchanged h (snd \<dots>)"
  proof (cases res)
    case (Some out)
    with l h3 show ?thesis by simp
  next
    case None
    define ap where "ap = hfield h3 schema ''additionalProperties''"
    obtain out h4 where g:
      "gen (p @ [length (hentries h1 (hfield h1 schema ''properties''))]) h3 ap = (out, h4)"
      by (cases "gen (p @ [length (hentries h1 (hfield h1 schema ''properties''))]) h3 ap")
    with gen3 [of "p @ [length (hentries h1 (hfield h1 schema ''properties''))]" ap]
    have h4: "unchanged h h4" by simp
    from h3 a have s3: "unchanged h (store h3 a k v)" for k v
      by (rule unchanged_store)
    from h4 a have s4: "unchanged h (store h4 a k v)" for k v
      by (rule unchanged_store)
    show ?thesis
      unfolding l None
      by (cases out) (simp_all add: Let_def ap_def [symmetric] g h3 h4 s3 s4)
  qed
  finally show ?thesis .
qed

lemma generateSimpleSample_h_unchanged:
  assumes gen: "\<And>p h v. unchanged h (snd (gen p h v))"
  shows "unchanged h (snd (generateSimpleSample_h gen e p h schema))"
  using generateArray_h_unchanged [of gen h p schema, OF gen]
    generateObject_h_unchanged [of gen h e p schema, OF gen]
  by (simp add: generateSimpleSample_h_def Let_def unchanged_refl)

lemma generateSampleData_h_unchanged:
  assumes lib: "\<And>p h v. unchanged h (snd (hjsf_generate e p h v))"
  shows "unchanged h (snd (generateSampleData_h n e p h schema))"
proof (induction n arbitrary: p h schema)
  case 0
  then show ?case by (simp add: unchanged_refl)
next
  case (Suc n)
  obtain r h' where j: "hjsf_generate e p h schema = (r, h')"
    by (cases "hjsf_generate e p h schema")
  with lib [of h p schema] have h': "unchanged h h'" by simp
  have "unchanged h' (snd (generateSimpleSample_h (generateSampleData_h n e) e p h' schema))"
    by (rule generateSimpleSample_h_unchanged) (rule Suc.IH)
  with h' have "unchanged h (snd (generateSimpleSample_h (generateSampleData_h n e) e p h' schema))"
    by (rule unchanged_trans)
  with h' j show ?case
    by (cases r) (simp_all add: unchanged_refl generateSampleFromRef_h_unchanged)
qed

section \<open>Properties of \<open>generateSampleData\<close>\<close>

subsection \<open>References\<close>

text \<open>
  C6, as stated, fails: a \<open>$ref\<close> that is present but is the empty string (a reference to
  the document itself) is skipped by the truthiness test, and the node is generated from its
  other fields; a \<open>$ref\<close> that is not a string makes \<open>ref.split\<close> raise.
\<close>

theorem ref_skipped_or_raises_counterexample:
  "generateSampleData (fixed_world None 0) []
       (JObj [(''$ref'', JStr ''''), (''example'', JNum 42)]) = Inr (JNum 42) \<and>
   generateSampleData (fixed_world None 0) []
       (JObj [(''$ref'', JStr ''''), (''example'', JNum 42)])
     \<noteq> Inr (JObj [(''id'', JNum 1), (''name'', JStr '''')]) \<and>
   generateSampleData (fixed_world None 0) [] (JObj [(''$ref'', JNum 5)]) = Inl TypeError"
  by (simp add: generateSampleData.simps)

text \<open>
  C6, amended. For every schema node whose \<open>$ref\<close> is a non-empty string, whatever its other
  fields and whatever the library, the random source and the clock do, \<open>generateSampleData\<close>
  returns the object \<open>{ id: 1, name: s }\<close>, where \<open>s\<close> is the part of the reference after
  its last \<open>/\<close> (all of it when it has none).
\<close>

theorem ref_placeholder:
  assumes "field schema ''$ref'' = JStr r" and "r \<noteq> []"
  shows "generateSampleData e p schema =
           Inr (JObj [(''id'', JNum 1),
                      (''name'', JStr (rev (takeWhile (\<lambda>c. c \<noteq> CHR ''/'') (rev r))))])"
proof -
  from assms have "truthy schema" by (cases schema) auto
  with assms show ?thesis
    by (simp add: generateSampleData.simps last_split_on)
qed

theorem ref_placeholder_witness:
  "field (JObj [(''type'', JStr ''string''), (''example'', JNum 42),
                (''$ref'', JStr ''#/components/schemas/Pet'')]) ''$ref''
     = JStr ''#/components/schemas/Pet'' \<and>
   generateSampleData (fixed_world (Some JNull) 0) []
       (JObj [(''type'', JStr ''string''), (''example'', JNum 42),
              (''$ref'', JStr ''#/components/schemas/Pet'')])
     = Inr (JObj [(''id'', JNum 1), (''name'', JStr ''Pet'')])"
  using ref_placeholder
          [of "JObj [(''type'', JStr ''string''), (''example'', JNum 42),
                     (''$ref'', JStr ''#/components/schemas/Pet'')]"
              "''#/components/schemas/Pet''" "fixed_world (Some JNull) 0" "[]"]
  by simp

subsection \<open>Schemas without a type\<close>

text \<open>
  C8, as stated, fails: the fallback that returns \<open>null\<close> for a schema without \<open>type\<close> runs
  only when \<open>jsf.generate\<close> throws. When the library returns a sample, here an empty
  object for the empty schema, that sample is the result.
\<close>

theorem missing_type_not_null_counterexample:
  "generateSampleData (fixed_world (Some (JObj [])) 0) [] (JObj []) = Inr (JObj []) \<and>
   generateSampleData (fixed_world (Some (JObj [])) 0) [] (JObj []) \<noteq> Inr JNull"
  by (simp add: generateSampleData.simps fixed_world_def)

text \<open>
  C8, amended. For every non-null (truthy) schema with no \<open>type\<close>, \<open>example\<close>, \<open>examples\<close>
  or \<open>$ref\<close>, \<open>generateSampleData\<close> does not raise: it returns the sample of the library
  when the library returns one, and \<open>null\<close> when the library throws.
\<close>

theorem missing_type_primary_or_null:
  assumes "truthy schema"
    and "field schema ''$ref'' = JUndefined"
    and "field schema ''example'' = JUndefined"
    and "field schema ''examples'' = JUndefined"
    and "field schema ''type'' = JUndefined"
  shows "generateSampleData e p schema =
           Inr (case jsf_generate e p schema of Some v \<Rightarrow> v | None \<Rightarrow> JNull)"
  using assms
  by (simp add: generateSampleData.simps generateSimpleSample.simps split: option.splits)

theorem missing_type_primary_or_null_witness:
  "truthy (JObj [(''minLength'', JNum 3)]) \<and>
   field (JObj [(''minLength'', JNum 3)]) ''type'' = JUndefined \<and>
   generateSampleData (fixed_world None 0) [] (JObj [(''minLength'', JNum 3)]) = Inr JNull \<and>
   generateSampleData (fixed_world (Some (JStr ''abc'')) 0) [] (JObj [(''minLength'', JNum 3)])
     = Inr (JStr ''abc'')"
  using missing_type_primary_or_null
          [of "JObj [(''minLength'', JNum 3)]" "fixed_world None 0" "[]"]
        missing_type_primary_or_null
          [of "JObj [(''minLength'', JNum 3)]" "fixed_world (Some (JStr ''abc'')) 0" "[]"]
  by (simp add: fixed_world_def)

subsection \<open>Enumerations\<close>

text \<open>
  C4, as stated, fails. The first element of \<open>enum\<close> is chosen by \<open>generateString\<close> and
  \<open>generateNumber\<close> only, which run when \<open>jsf.generate\<close> throws and \<open>type\<close> is \<open>string\<close>,
  \<open>number\<close> or \<open>integer\<close>: a sample returned by the library is the result as it is, a schema
  without \<open>type\<close> gives \<open>null\<close>, and a boolean schema gives \<open>true\<close>.
\<close>

theorem enum_not_first_counterexample:
  "generateSampleData (fixed_world (Some (JStr ''y'')) 0) []
       (JObj [(''type'', JStr ''string''), (''enum'', JArr [JStr ''x'', JStr ''y'', JStr ''z''])])
     = Inr (JStr ''y'') \<and>
   generateSampleData (fixed_world None 0) []
       (JObj [(''enum'', JArr [JStr ''x'', JStr ''y'', JStr ''z''])]) = Inr JNull \<and>
   generateSampleData (fixed_world None 0) []
       (JObj [(''type'', JStr ''boolean''), (''enum'', JArr [JBool False])]) = Inr (JBool True)"
  by (simp add: generateSampleData.simps generateSimpleSample.simps fixed_world_def)

text \<open>
  C4, amended. For every schema with a non-empty \<open>enum\<close> list and no \<open>$ref\<close>, \<open>example\<close> or
  \<open>examples\<close>: when \<open>jsf.generate\<close> returns a sample, \<open>generateSampleData\<close> returns that
  sample; when it throws and \<open>type\<close> is \<open>string\<close>, \<open>number\<close> or \<open>integer\<close>,
  \<open>generateSampleData\<close> returns exactly the first element of \<open>enum\<close>.
\<close>

theorem enum_first_on_fallback:
  assumes "field schema ''enum'' = JArr (x # xs)"
    and "field schema ''$ref'' = JUndefined"
    and "field schema ''example'' = JUndefined"
    and "field schema ''examples'' = JUndefined"
  shows "(\<forall>v. jsf_generate e p schema = Some v \<longrightarrow> generateSampleData e p schema = Inr v) \<and>
         (jsf_generate e p schema = None \<and>
          field schema ''type'' \<in> {JStr ''string'', JStr ''number'', JStr ''integer''} \<longrightarrow>
            generateSampleData e p schema = Inr x)"
proof -
  from assms have "truthy schema" by (cases schema) auto
  with assms show ?thesis
    by (auto simp: generateSampleData.simps generateSimpleSample.simps generateString_def
          generateNumber_def)
qed

theorem enum_first_on_fallback_witness:
  "generateSampleData (fixed_world None 0) []
       (JObj [(''type'', JStr ''integer''), (''enum'', JArr [JNum 7, JNum 8])]) = Inr (JNum 7) \<and>
   generateSampleData (fixed_world (Some (JNum 8)) 0) []
       (JObj [(''type'', JStr ''integer''), (''enum'', JArr [JNum 7, JNum 8])]) = Inr (JNum 8)"
  using enum_first_on_fallback
          [of "JObj [(''type'', JStr ''integer''), (''enum'', JArr [JNum 7, JNum 8])]"
              "JNum 7" "[JNum 8]" "fixed_world None 0" "[]"]
        enum_first_on_fallback
          [of "JObj [(''type'', JStr ''integer''), (''enum'', JArr [JNum 7, JNum 8])]"
              "JNum 7" "[JNum 8]" "fixed_world (Some (JNum 8)) 0" "[]"]
  by (simp add: fixed_world_def)

subsection \<open>Exceptions\<close>




section \<open>Properties of the fallback generators\<close>

subsection \<open>Numbers\<close>




subsection \<open>Strings\<close>

text \<open>
  C3 does not hold of \<open>generateString\<close>: the limits are read as \<open>schema.minLength || 3\<close> and
  \<open>schema.maxLength || 10\<close>, which replace a limit of \<open>0\<close> by the default where
  \<open>generateNumber\<close> uses \<open>??\<close> and keeps it. For \<open>minLength = 0\<close>, \<open>maxLength = 0\<close>
  the string produced is \<open>examp\<close>, of length 5, where \<open>clamp(5, 0, 0) = 0\<close>.
\<close>

theorem generateString_maxLength_zero:
  "generateString (fixed_world None 0) []
       (JObj [(''type'', JStr ''string''), (''minLength'', JNum 0), (''maxLength'', JNum 0)])
     = Inr (JStr ''examp'') \<and>
   generateSampleData (fixed_world None 0) []
       (JObj [(''type'', JStr ''string''), (''minLength'', JNum 0), (''maxLength'', JNum 0)])
     = Inr (JStr ''examp'') \<and>
   length ''examp'' \<noteq> min 0 (max 0 5)"
  by (simp add: generateSampleData.simps generateSimpleSample.simps generateString_def
        fixed_world_def js_or_def pad_example_def)

text \<open>
  For every other pair of limits the claim holds: with \<open>minLength = a \<le> maxLength = b\<close> and
  \<open>b > 0\<close>, no \<open>enum\<close>, \<open>format\<close> or \<open>pattern\<close>, the string has length
  \<open>min b (max a 5)\<close>.
\<close>

lemma generateString_length_example:
  "\<exists>s. generateString (fixed_world None 0) []
          (JObj [(''type'', JStr ''string''), (''minLength'', JNum 8), (''maxLength'', JNum 20)])
        = Inr (JStr s) \<and> length s = 8"
  using generateString_length
          [of "JObj [(''type'', JStr ''string''), (''minLength'', JNum 8), (''maxLength'', JNum 20)]"
              8 20 "fixed_world None 0" "[]"]
  by simp

subsection \<open>Arrays\<close>

text \<open>
  C7 does not hold of \<open>generateArray\<close>: the limits are read as \<open>schema.minItems || 1\<close> and
  \<open>schema.maxItems || 3\<close>, so \<open>maxItems = 0\<close> is replaced by \<open>3\<close>. For the schema
  \<open>{type: "array", items: {type: "string"}, maxItems: 0}\<close> two elements are generated where
  \<open>clamp(2, 1, 0) = 0\<close>.
\<close>

theorem generateArray_maxItems_zero:
  "generateArray (fixed_world None 0) []
       (JObj [(''type'', JStr ''array''), (''items'', JObj [(''type'', JStr ''string'')]),
              (''maxItems'', JNum 0)])
     = Inr (JArr [JStr ''examp'', JStr ''examp'']) \<and>
   generateSampleData (fixed_world None 0) []
       (JObj [(''type'', JStr ''array''), (''items'', JObj [(''type'', JStr ''string'')]),
              (''maxItems'', JNum 0)])
     = Inr (JArr [JStr ''examp'', JStr ''examp'']) \<and>
   length [JStr ''examp'', JStr ''examp''] \<noteq> min 0 (max 1 2)"
  by code_simp

text \<open>
  For every other pair of limits the claim holds (\<open>generateArray_no_items\<close>,
  \<open>generateArray_count\<close>): without \<open>items\<close> the result is the empty array, and with
  \<open>items\<close> and \<open>maxItems\<close> absent or positive, an array that is returned has
  \<open>clamp(2, minItems ?? 1, maxItems ?? 3)\<close> elements, the results of \<open>generateSampleData\<close>
  on \<open>items\<close>.
\<close>

lemma generateArray_count_example:
  "generateArray (fixed_world None 0) []
       (JObj [(''type'', JStr ''array''), (''items'', JObj [(''type'', JStr ''boolean'')]),
              (''minItems'', JNum 1), (''maxItems'', JNum 3)])
     = Inr (JArr [JBool True, JBool True])"
  by code_simp

subsection \<open>Objects\<close>

text \<open>
  C5 does not hold of \<open>generateObject\<close> for one property name. A declared and required
  property is generated whatever \<open>Math.random\<close> returns, but it is stored by
  \<open>obj[propName] = ...\<close> on an object created by \<open>{}\<close>, and for the name \<open>__proto__\<close> that
  assignment reaches the accessor of \<open>Object.prototype\<close> and adds no key. Here \<open>__proto__\<close>
  and \<open>id\<close> are declared and required, and the object has the key \<open>id\<close> only.
\<close>

theorem generateObject_required_proto_missing:
  "generateObject (fixed_world None 0) []
       (JObj [(''type'', JStr ''object''),
              (''required'', JArr [JStr ''__proto__'', JStr ''id'']),
              (''properties'', JObj [(''__proto__'', JObj [(''type'', JStr ''string'')]),
                                     (''id'', JObj [(''type'', JStr ''integer'')])])])
     = Inr (JObj [(''id'', JNum 50)]) \<and>
   generateSampleData (fixed_world None 0) []
       (JObj [(''type'', JStr ''object''),
              (''required'', JArr [JStr ''__proto__'', JStr ''id'']),
              (''properties'', JObj [(''__proto__'', JObj [(''type'', JStr ''string'')]),
                                     (''id'', JObj [(''type'', JStr ''integer'')])])])
     = Inr (JObj [(''id'', JNum 50)]) \<and>
   ''__proto__'' \<notin> set (map fst [(''id'', JNum 50)])"
  by code_simp

text \<open>
  For every other name the claim holds (\<open>generateObject_required_present\<close>): whatever the
  random draws, a declared property named in the \<open>required\<close> list is a key of every object
  that \<open>generateObject\<close> returns. With all draws at \<open>0\<close> every optional property is left
  out, and the two required ones of the README's schema are there.
\<close>

lemma generateObject_required_example:
  "generateObject (fixed_world None 0) []
       (JObj [(''type'', JStr ''object''),
              (''required'', JArr [JStr ''username'', JStr ''email'']),
              (''properties'',
                 JObj [(''username'', JObj [(''type'', JStr ''string''), (''minLength'', JNum 3),
                                            (''maxLength'', JNum 20)]),
                       (''email'', JObj [(''type'', JStr ''string''), (''format'', JStr ''email'')]),
                       (''age'', JObj [(''type'', JStr ''integer''), (''minimum'', JNum 18)])])])
     = Inr (JObj [(''username'', JStr ''examp''), (''email'', JStr ''user@example.com'')])"
  by code_simp

section \<open>Properties of the generator on the heap\<close>

text \<open>
  The two embeddings agree on the schema of the README: the object that the generator
  builds on the heap, read as a tree, is the value of the first embedding.
\<close>

lemma embeddings_agree_example:
  "(case generateSampleData_h 5 (fixed_hworld (1 / 2)) [] readme_heap (VRef 0) of
      (Returned v, h') \<Rightarrow> Inr (reify 5 h' v)
    | (Raised err, h') \<Rightarrow> Inl err
    | (OutOfFuel, h') \<Rightarrow> Inl Unmodelled)
   = generateSampleData (fixed_world None (1 / 2)) [] (reify 5 readme_heap (VRef 0))"
  by code_simp

text \<open>
  C9. For every schema, every heap and every depth of recursion, a call of
  \<open>generateSampleData\<close>, with the recursive calls it makes for array items, object
  properties and \<open>additionalProperties\<close>, leaves every object that existed before the call
  (the schema node and all its nested nodes among them) at its address with its contents:
  the generator writes to the arrays and objects it has created itself, and to nothing
  else. The call of \<open>jsf.generate\<close> is the library's code; of it, the theorem assumes
  that it does not modify existing objects either.
\<close>

theorem generateSampleData_leaves_input_unchanged:
  assumes "\<forall>p h v. unchanged h (snd (hjsf_generate e p h v))"
  shows "\<forall>a < length h.
           a < length (snd (generateSampleData_h n e p h schema)) \<and>
           snd (generateSampleData_h n e p h schema) ! a = h ! a"
  using assms generateSampleData_h_unchanged [of e h n p schema] unchanged_nth
  by blast

theorem generateSampleData_leaves_input_unchanged_witness:
  "fst (generateSampleData_h 5 (fixed_hworld (1 / 2)) [] readme_heap (VRef 0))
     = Returned (VRef 7) \<and>
   take 7 (snd (generateSampleData_h 5 (fixed_hworld (1 / 2)) [] readme_heap (VRef 0)))
     = readme_heap"
proof -
  let ?h' = "snd (generateSampleData_h 5 (fixed_hworld (1 / 2)) [] readme_heap (VRef 0))"
  have lib: "\<forall>p h v. unchanged h (snd (hjsf_generate (fixed_hworld (1 / 2)) p h v))"
    by (simp add: fixed_hworld_def unchanged_def)
  have run: "fst (generateSampleData_h 5 (fixed_hworld (1 / 2)) [] readme_heap (VRef 0))
      = Returned (VRef 7)"
    by code_simp
  have len: "length readme_heap = 7"
    by (simp add: readme_heap_def)
  from generateSampleData_leaves_input_unchanged [OF lib, of readme_heap 5 "[]" "VRef 0"]
  have same: "\<forall>a < 7. a < length ?h' \<and> ?h' ! a = readme_heap ! a"
    unfolding len .
  then have "6 < length ?h'" by simp
  then have "length (take 7 ?h') = length readme_heap"
    by (simp add: len)
  then have "take 7 ?h' = readme_heap"
    using same by (intro nth_equalityI) (simp_all add: len)
  with run show ?thesis by simp
qed

section \<open>Properties of \<open>getBaseUrl\<close>\<close>

text \<open>
  C10, as stated, fails in its last part: the \<open>url\<close> of the first server is returned as
  it is, so for a first server whose \<open>url\<close> is the empty string \<open>getBaseUrl\<close> returns
  the empty string.
\<close>

theorem getBaseUrl_empty_url_counterexample:
  "getBaseUrl \<lparr>servers = Some [\<lparr>url = []\<rparr>]\<rparr> = []"
  by (simp add: getBaseUrl_def)

text \<open>
  C10, amended. For every parsed document, \<open>getBaseUrl\<close> returns the \<open>url\<close> of the first
  entry of \<open>servers\<close> when that array exists and is not empty, and the string
  \<open>http://localhost\<close> otherwise; the fallback is not the empty string, so the function
  returns an empty string only when the first server's own \<open>url\<close> is empty.
\<close>

theorem getBaseUrl_first_server_or_localhost:
  "(\<forall>s ss. servers spec = Some (s # ss) \<longrightarrow> getBaseUrl spec = url s) \<and>
   (servers spec = None \<or> servers spec = Some [] \<longrightarrow>
      getBaseUrl spec = ''http://localhost'' \<and> getBaseUrl spec \<noteq> []) \<and>
   (getBaseUrl spec = [] \<longrightarrow> (\<exists>s ss. servers spec = Some (s # ss) \<and> url s = []))"
  by (auto simp: getBaseUrl_def split: option.splits list.splits)

theorem getBaseUrl_first_server_or_localhost_witness:
  "getBaseUrl \<lparr>servers = Some [\<lparr>url = ''https://api.example.com/v1''\<rparr>, \<lparr>url = ''https://b''\<rparr>]\<rparr>
     = ''https://api.example.com/v1'' \<and>
   getBaseUrl \<lparr>servers = Some []\<rparr> = ''http://localhost'' \<and>
   getBaseUrl \<lparr>servers = None\<rparr> = ''http://localhost''"
  using getBaseUrl_first_server_or_localhost
          [of "\<lparr>servers = Some [\<lparr>url = ''https://api.example.com/v1''\<rparr>, \<lparr>url = ''https://b''\<rparr>]\<rparr>"]
        getBaseUrl_first_server_or_localhost [of "\<lparr>servers = Some []\<rparr>"]
        getBaseUrl_first_server_or_localhost [of "\<lparr>servers = None\<rparr>"]
  by simp

end
